theory Spec2Isabelle
  imports Main "HOL-Library.Word"
begin

section \<open>The speech-recognition hook \<open>useSpeechRecognition\<close>\<close>

text \<open>
  A shallow embedding of \<^verbatim>\<open>src/hooks/useSpeechRecognition.ts\<close>. The hook keeps three
  pieces of React state (\<open>isListening\<close>, \<open>transcript\<close>, \<open>isSupported\<close>) and five refs, and
  wires four event handlers onto a recognizer object of the browser. The browser is not
  part of the code: what the hook does to it (constructor calls, property writes,
  method calls, \<open>setTimeout\<close>, calls of the user's callback) is recorded, in program
  order, in the field \<open>effects\<close>; what the browser does to the hook (events, timers
  firing) and what the user interface does (calls of the returned functions) are the
  actions of a step function. Calls of \<open>console.log\<close> and \<open>console.error\<close> change nothing
  the hook reads and are left out.

  React state is read where the source reads it: \<open>startListening\<close> reads \<open>isSupported\<close>
  and \<open>stopListening\<close> reads \<open>isListening\<close>, each through the closure of the render that
  made it; the handlers read refs only. The model takes a setter to act at once and a
  call to reach the function of the latest render, so both read the current state. The
  \<open>startListening\<close> that a retry calls was made by a render with \<open>isSupported\<close> true (the
  handler that schedules the retry was assigned past the guard), and the flag is never
  cleared, so there too the current state is what the closure holds.
\<close>

subsection \<open>JavaScript strings\<close>

text \<open>
  A JavaScript string is a sequence of 16-bit code units. A string is truthy when it is
  not empty. \<open>String.prototype.trim\<close> removes the white space and line terminators of
  ECMAScript from both ends.
\<close>

type_synonym code_unit = "16 word"
type_synonym jsstring = "code_unit list"

definition js :: "string \<Rightarrow> jsstring" where
  "js cs = map of_char cs"

definition is_white_space :: "code_unit \<Rightarrow> bool" where
  "is_white_space c =
     (c = 0x0009 \<or> c = 0x000A \<or> c = 0x000B \<or> c = 0x000C \<or> c = 0x000D \<or> c = 0x0020 \<or>
      c = 0x00A0 \<or> c = 0x1680 \<or> (0x2000 \<le> c \<and> c \<le> 0x200A) \<or> c = 0x2028 \<or>
      c = 0x2029 \<or> c = 0x202F \<or> c = 0x205F \<or> c = 0x3000 \<or> c = 0xFEFF)"

definition trim :: "jsstring \<Rightarrow> jsstring" where
  "trim s = rev (dropWhile is_white_space (rev (dropWhile is_white_space s)))"

subsection \<open>Events of the recognizer\<close>

text \<open>
  A \<open>SpeechRecognitionResult\<close> is read through \<open>result[0].transcript\<close> and
  \<open>result.isFinal\<close> only; \<open>alternative0\<close> is the transcript of its first alternative.
\<close>

record recognition_result =
  alternative0 :: jsstring
  isFinal :: bool

record result_event =
  results :: "recognition_result list"
  resultIndex :: nat

record error_event =
  error :: jsstring
  message :: jsstring

datatype event =
    StartEvent
  | ResultEvent result_event
  | EndEvent
  | ErrorEvent error_event

datatype handler_kind = Onstart | Onresult | Onend | Onerror

fun kind_of :: "event \<Rightarrow> handler_kind" where
  "kind_of StartEvent = Onstart"
| "kind_of (ResultEvent ev) = Onresult"
| "kind_of EndEvent = Onend"
| "kind_of (ErrorEvent ev) = Onerror"

subsection \<open>The platform and the effects on it\<close>

text \<open>
  Recognizer objects and callbacks of the user are known by a number. A timer is the
  closure given to \<open>setTimeout\<close>: the delayed call of the callback in \<open>onresult\<close> (it
  captures \<open>fullText\<close>), the retry in \<open>onerror\<close>, and the delayed start of
  \<open>restartListening\<close> (it captures \<open>onSpeechEnd\<close>).
\<close>

type_synonym rid = nat
type_synonym cb = nat

datatype timer =
    SpeechEndTimer jsstring
  | RetryTimer
  | RestartTimer cb

datatype effect =
    Construct rid
  | SetContinuous rid bool
  | SetInterimResults rid bool
  | SetLang rid jsstring
  | SetHandler rid handler_kind
  | Start rid
  | Stop rid
  | Abort rid
  | SetTimeout timer nat
  | Invoke cb jsstring

text \<open>
  What the platform decides at a call: whether \<open>window.SpeechRecognition\<close> and
  \<open>window.webkitSpeechRecognition\<close> are defined, and whether \<open>recognition.start()\<close>
  throws.
\<close>

record platform =
  has_SpeechRecognition :: bool
  has_webkitSpeechRecognition :: bool
  start_throws :: bool

definition speech_ctor :: "platform \<Rightarrow> bool" where
  "speech_ctor p = (has_SpeechRecognition p \<or> has_webkitSpeechRecognition p)"

subsection \<open>The state of the hook\<close>

text \<open>
  \<open>hook_core\<close> holds the state and refs that both revisions of the hook declare, the
  log of effects and the number of recognizers constructed so far; \<open>hook\<close> adds the two
  voice-mode refs and the pending timers of \<^verbatim>\<open>src/hooks/useSpeechRecognition.ts\<close>.
\<close>

record hook_core =
  isListening :: bool
  transcript :: jsstring
  isSupported :: bool
  recognitionRef :: "rid option"
  onSpeechEndRef :: "cb option"
  finalTranscriptRef :: jsstring
  effects :: "effect list"
  constructed :: nat

record hook = hook_core +
  isVoiceModeRef :: bool
  shouldRestartRef :: bool
  timers :: "(timer \<times> nat) list"

definition initial :: hook where
  "initial =
     \<lparr>isListening = False, transcript = [], isSupported = False, recognitionRef = None,
      onSpeechEndRef = None, finalTranscriptRef = [], effects = [], constructed = 0,
      isVoiceModeRef = False, shouldRestartRef = False, timers = []\<rparr>"

definition emit :: "effect list \<Rightarrow> 'a hook_core_scheme \<Rightarrow> 'a hook_core_scheme" where
  "emit es s = s\<lparr>effects := effects s @ es\<rparr>"

definition setTimeout :: "timer \<Rightarrow> nat \<Rightarrow> hook \<Rightarrow> hook" where
  "setTimeout t delay s =
     s\<lparr>effects := effects s @ [SetTimeout t delay], timers := timers s @ [(t, delay)]\<rparr>"

subsection \<open>The initialization effect\<close>

definition useEffect_init :: "platform \<Rightarrow> hook \<Rightarrow> hook" where
  "useEffect_init p s = (if speech_ctor p then s\<lparr>isSupported := True\<rparr> else s)"

definition mount :: "platform \<Rightarrow> hook" where
  "mount p = useEffect_init p initial"

subsection \<open>The handlers\<close>

definition onstart :: "hook \<Rightarrow> hook" where
  "onstart s = s\<lparr>isListening := True, transcript := []\<rparr>"

text \<open>
  The loop of \<open>onresult\<close> over \<open>event.results\<close> from \<open>event.resultIndex\<close>; its state is
  \<open>interimTranscript\<close>, \<open>finalTranscript\<close> and \<open>finalTranscriptRef.current\<close>.
\<close>

fun result_loop ::
  "recognition_result list \<Rightarrow> jsstring \<Rightarrow> jsstring \<Rightarrow> jsstring \<Rightarrow> jsstring \<times> jsstring \<times> jsstring"
where
  "result_loop [] interimTranscript finalTranscript ref = (interimTranscript, finalTranscript, ref)"
| "result_loop (r # rs) interimTranscript finalTranscript ref =
     (if isFinal r
      then result_loop rs interimTranscript (finalTranscript @ alternative0 r) (ref @ alternative0 r)
      else result_loop rs (interimTranscript @ alternative0 r) finalTranscript ref)"

definition onresult :: "rid \<Rightarrow> result_event \<Rightarrow> hook \<Rightarrow> hook" where
  "onresult recognition ev s =
     (case result_loop (drop (resultIndex ev) (results ev)) [] [] (finalTranscriptRef s) of
        (interimTranscript, finalTranscript, ref) \<Rightarrow>
          let s1 = s\<lparr>finalTranscriptRef := ref, transcript := ref @ interimTranscript\<rparr>
          in if finalTranscript \<noteq> [] \<and> onSpeechEndRef s1 \<noteq> None
             then (let fullText = trim (finalTranscriptRef s1)
                   in if fullText \<noteq> []
                      then setTimeout (SpeechEndTimer fullText) 100 (emit [Stop recognition] s1)
                      else s1)
             else s1)"

definition onend :: "hook \<Rightarrow> hook" where
  "onend s =
     (let s1 = s\<lparr>isListening := False\<rparr>;
          s2 = (if \<not> isVoiceModeRef s1 \<and> finalTranscriptRef s1 \<noteq> []
                then s1\<lparr>transcript := finalTranscriptRef s1\<rparr> else s1)
      in s2\<lparr>recognitionRef := None\<rparr>)"

definition onerror :: "error_event \<Rightarrow> hook \<Rightarrow> hook" where
  "onerror ev s =
     (let s1 = s\<lparr>isListening := False, recognitionRef := None\<rparr>
      in if isVoiceModeRef s1 \<and> shouldRestartRef s1 \<and> error ev \<noteq> js ''aborted''
         then setTimeout RetryTimer 1000 s1
         else s1)"

subsection \<open>The functions the hook returns\<close>

definition startListening :: "cb option \<Rightarrow> platform \<Rightarrow> hook \<Rightarrow> hook" where
  "startListening onSpeechEnd p s =
     (if \<not> isSupported s then s
      else if \<not> speech_ctor p then s
      else
        let s1 = (case recognitionRef s of Some old \<Rightarrow> emit [Abort old] s | None \<Rightarrow> s);
            s2 = s1\<lparr>isVoiceModeRef := (onSpeechEnd \<noteq> None),
                     shouldRestartRef := (onSpeechEnd \<noteq> None)\<rparr>;
            recognition = constructed s2;
            s3 = (emit [Construct recognition] s2)
                   \<lparr>constructed := Suc recognition, recognitionRef := Some recognition,
                    onSpeechEndRef := onSpeechEnd, finalTranscriptRef := []\<rparr>;
            s4 = emit [SetContinuous recognition True, SetInterimResults recognition True,
                       SetLang recognition (js ''tr-TR''),
                       SetHandler recognition Onstart, SetHandler recognition Onresult,
                       SetHandler recognition Onend, SetHandler recognition Onerror,
                       Start recognition] s3
        in if start_throws p then s4\<lparr>isListening := False, recognitionRef := None\<rparr> else s4)"

definition stopListening :: "hook \<Rightarrow> hook" where
  "stopListening s =
     (let s1 = s\<lparr>shouldRestartRef := False, isVoiceModeRef := False\<rparr>
      in case recognitionRef s1 of
           Some recognition \<Rightarrow> if isListening s1 then emit [Stop recognition] s1 else s1
         | None \<Rightarrow> s1)"

definition resetTranscript :: "hook \<Rightarrow> hook" where
  "resetTranscript s = s\<lparr>transcript := [], finalTranscriptRef := []\<rparr>"

definition restartListening :: "cb \<Rightarrow> hook \<Rightarrow> hook" where
  "restartListening onSpeechEnd s =
     (if \<not> shouldRestartRef s then s else setTimeout (RestartTimer onSpeechEnd) 500 s)"

subsection \<open>Timers\<close>

text \<open>The body of each closure given to \<open>setTimeout\<close>, run when the timer fires.\<close>

fun fire :: "timer \<Rightarrow> platform \<Rightarrow> hook \<Rightarrow> hook" where
  "fire (SpeechEndTimer fullText) p s =
     (case onSpeechEndRef s of Some callback \<Rightarrow> emit [Invoke callback fullText] s | None \<Rightarrow> s)"
| "fire RetryTimer p s =
     (if shouldRestartRef s
      then (case onSpeechEndRef s of Some callback \<Rightarrow> startListening (Some callback) p s | None \<Rightarrow> s)
      else s)"
| "fire (RestartTimer onSpeechEnd) p s =
     (if shouldRestartRef s then startListening (Some onSpeechEnd) p s else s)"

subsection \<open>Runs of the hook\<close>

text \<open>
  An action is a call of one of the returned functions, an event that the platform
  delivers to a recognizer, or a pending timer that fires. An event reaches a handler
  only when the handler has been assigned to that recognizer. Any pending timer may
  fire: the delays are recorded, the clock is not modelled.
\<close>

datatype action =
    Call_startListening "cb option" platform
  | Call_stopListening
  | Call_resetTranscript
  | Call_restartListening cb
  | Deliver rid event
  | Timeout nat platform

fun handle :: "rid \<Rightarrow> event \<Rightarrow> hook \<Rightarrow> hook" where
  "handle r StartEvent s = onstart s"
| "handle r (ResultEvent ev) s = onresult r ev s"
| "handle r EndEvent s = onend s"
| "handle r (ErrorEvent ev) s = onerror ev s"

definition deliver :: "rid \<Rightarrow> event \<Rightarrow> hook \<Rightarrow> hook" where
  "deliver r e s = (if SetHandler r (kind_of e) \<in> set (effects s) then handle r e s else s)"

definition timeout :: "nat \<Rightarrow> platform \<Rightarrow> hook \<Rightarrow> hook" where
  "timeout i p s =
     (if i < length (timers s)
      then fire (fst (timers s ! i)) p (s\<lparr>timers := take i (timers s) @ drop (Suc i) (timers s)\<rparr>)
      else s)"

fun step :: "action \<Rightarrow> hook \<Rightarrow> hook" where
  "step (Call_startListening onSpeechEnd p) s = startListening onSpeechEnd p s"
| "step Call_stopListening s = stopListening s"
| "step Call_resetTranscript s = resetTranscript s"
| "step (Call_restartListening onSpeechEnd) s = restartListening onSpeechEnd s"
| "step (Deliver r e) s = deliver r e s"
| "step (Timeout i p) s = timeout i p s"

fun run :: "action list \<Rightarrow> hook \<Rightarrow> hook" where
  "run [] s = s"
| "run (a # as) s = run as (step a s)"

section \<open>The earlier revision of the hook\<close>

text \<open>
  \<^verbatim>\<open>src/unnamed/part_000\<close> is the hook before voice mode got its restart logic: it has
  no \<open>isVoiceModeRef\<close>, no \<open>shouldRestartRef\<close> and no timer. \<open>startListening\<close> also
  returns when the hook is already listening and aborts nothing, \<open>onresult\<close> calls the
  callback at once, \<open>onend\<close> reads \<open>onSpeechEndRef\<close> to tell manual mode, and \<open>onerror\<close>
  only clears the listening flag. Its definitions carry the suffix \<open>0\<close>.
\<close>

definition initial0 :: hook_core where
  "initial0 =
     \<lparr>isListening = False, transcript = [], isSupported = False, recognitionRef = None,
      onSpeechEndRef = None, finalTranscriptRef = [], effects = [], constructed = 0\<rparr>"

definition useEffect_init0 :: "platform \<Rightarrow> hook_core \<Rightarrow> hook_core" where
  "useEffect_init0 p s = (if speech_ctor p then s\<lparr>isSupported := True\<rparr> else s)"

definition onstart0 :: "hook_core \<Rightarrow> hook_core" where
  "onstart0 s = s\<lparr>isListening := True, transcript := []\<rparr>"

definition onresult0 :: "rid \<Rightarrow> result_event \<Rightarrow> hook_core \<Rightarrow> hook_core" where
  "onresult0 recognition ev s =
     (case result_loop (drop (resultIndex ev) (results ev)) [] [] (finalTranscriptRef s) of
        (interimTranscript, finalTranscript, ref) \<Rightarrow>
          let s1 = s\<lparr>finalTranscriptRef := ref, transcript := ref @ interimTranscript\<rparr>
          in if finalTranscript \<noteq> []
             then (case onSpeechEndRef s1 of
                     None \<Rightarrow> s1
                   | Some callback \<Rightarrow>
                       let fullText = trim (finalTranscriptRef s1)
                       in if fullText \<noteq> []
                          then emit [Stop recognition, Invoke callback fullText] s1
                          else s1)
             else s1)"

definition onend0 :: "hook_core \<Rightarrow> hook_core" where
  "onend0 s =
     (let s1 = s\<lparr>isListening := False\<rparr>
      in if onSpeechEndRef s1 = None \<and> finalTranscriptRef s1 \<noteq> []
         then s1\<lparr>transcript := finalTranscriptRef s1\<rparr> else s1)"

definition onerror0 :: "error_event \<Rightarrow> hook_core \<Rightarrow> hook_core" where
  "onerror0 ev s = s\<lparr>isListening := False\<rparr>"

definition startListening0 :: "cb option \<Rightarrow> platform \<Rightarrow> hook_core \<Rightarrow> hook_core" where
  "startListening0 onSpeechEnd p s =
     (if \<not> isSupported s \<or> isListening s then s
      else if \<not> speech_ctor p then s
      else
        let recognition = constructed s;
            s1 = (emit [Construct recognition] s)
                   \<lparr>constructed := Suc recognition, recognitionRef := Some recognition,
                    onSpeechEndRef := onSpeechEnd, finalTranscriptRef := []\<rparr>;
            s2 = emit [SetContinuous recognition True, SetInterimResults recognition True,
                       SetLang recognition (js ''tr-TR''),
                       SetHandler recognition Onstart, SetHandler recognition Onresult,
                       SetHandler recognition Onend, SetHandler recognition Onerror,
                       Start recognition] s1
        in if start_throws p then s2\<lparr>isListening := False\<rparr> else s2)"

definition stopListening0 :: "hook_core \<Rightarrow> hook_core" where
  "stopListening0 s =
     (case recognitionRef s of
        Some recognition \<Rightarrow> if isListening s then emit [Stop recognition] s else s
      | None \<Rightarrow> s)"

definition resetTranscript0 :: "hook_core \<Rightarrow> hook_core" where
  "resetTranscript0 s = s\<lparr>transcript := [], finalTranscriptRef := []\<rparr>"

datatype action0 =
    Call_startListening0 "cb option" platform
  | Call_stopListening0
  | Call_resetTranscript0
  | Deliver0 rid event

fun handle0 :: "rid \<Rightarrow> event \<Rightarrow> hook_core \<Rightarrow> hook_core" where
  "handle0 r StartEvent s = onstart0 s"
| "handle0 r (ResultEvent ev) s = onresult0 r ev s"
| "handle0 r EndEvent s = onend0 s"
| "handle0 r (ErrorEvent ev) s = onerror0 ev s"

fun step0 :: "action0 \<Rightarrow> hook_core \<Rightarrow> hook_core" where
  "step0 (Call_startListening0 onSpeechEnd p) s = startListening0 onSpeechEnd p s"
| "step0 Call_stopListening0 s = stopListening0 s"
| "step0 Call_resetTranscript0 s = resetTranscript0 s"
| "step0 (Deliver0 r e) s =
     (if SetHandler r (kind_of e) \<in> set (effects s) then handle0 r e s else s)"

fun run0 :: "action0 list \<Rightarrow> hook_core \<Rightarrow> hook_core" where
  "run0 [] s = s"
| "run0 (a # as) s = run0 as (step0 a s)"

section \<open>Vocabulary of the properties\<close>

text \<open>
  The finalized and the in-progress text of a result event: the transcripts of its final,
  respectively non-final, results from \<open>resultIndex\<close> on, in result order.
\<close>

definition final_text :: "result_event \<Rightarrow> jsstring" where
  "final_text ev = concat (map alternative0 (filter isFinal (drop (resultIndex ev) (results ev))))"

definition interim_text :: "result_event \<Rightarrow> jsstring" where
  "interim_text ev =
     concat (map alternative0 (filter (\<lambda>r. \<not> isFinal r) (drop (resultIndex ev) (results ev))))"

text \<open>A series of result events delivered to the \<open>onresult\<close> handler of one recognizer.\<close>

fun deliver_results :: "rid \<Rightarrow> result_event list \<Rightarrow> hook \<Rightarrow> hook" where
  "deliver_results r [] s = s"
| "deliver_results r (ev # evs) s = deliver_results r evs (onresult r ev s)"

text \<open>
  The recognizer sessions in progress: a session of recognizer \<open>r\<close> begins when its start
  event reaches the hook and is over when its end event does. \<open>sessions acts s A\<close> is the
  set of sessions in progress after the actions \<open>acts\<close>, taken from state \<open>s\<close> with the
  sessions \<open>A\<close> in progress.
\<close>

fun track :: "action \<Rightarrow> hook \<Rightarrow> rid set \<Rightarrow> rid set" where
  "track (Deliver r StartEvent) s A =
     (if SetHandler r Onstart \<in> set (effects s) then insert r A else A)"
| "track (Deliver r EndEvent) s A =
     (if SetHandler r Onend \<in> set (effects s) then A - {r} else A)"
| "track a s A = A"

fun sessions :: "action list \<Rightarrow> hook \<Rightarrow> rid set \<Rightarrow> rid set" where
  "sessions [] s A = A"
| "sessions (a # as) s A = sessions as (step a s) (track a s A)"

text \<open>
  The two voice-mode flags are written together, and only \<open>startListening\<close> with a
  callback sets them.
\<close>

definition voice_refs_consistent :: "hook \<Rightarrow> bool" where
  "voice_refs_consistent s =
     (isVoiceModeRef s = shouldRestartRef s \<and> (onSpeechEndRef s = None \<longrightarrow> \<not> isVoiceModeRef s))"

text \<open>Every recognizer constructed so far has a number below \<open>constructed\<close>.\<close>

definition fresh_ids :: "'a hook_core_scheme \<Rightarrow> bool" where
  "fresh_ids s = (\<forall>n. Construct n \<in> set (effects s) \<longrightarrow> n < constructed s)"

text \<open>
  A trimmed, non-empty string. \<open>stop_scheduled t es\<close>: in the effects \<open>es\<close>, some
  recognizer was stopped and the call of the callback with \<open>t\<close> was scheduled right
  after. \<open>invocations_ok\<close> and \<open>pending_ok\<close> say so of every call of the callback made,
  and of every call still pending.
\<close>

definition trimmed :: "jsstring \<Rightarrow> bool" where
  "trimmed t = (t \<noteq> [] \<and> \<not> is_white_space (hd t) \<and> \<not> is_white_space (last t))"

definition stop_scheduled :: "jsstring \<Rightarrow> effect list \<Rightarrow> bool" where
  "stop_scheduled t es =
     (\<exists>r pre post. es = pre @ Stop r # SetTimeout (SpeechEndTimer t) 100 # post)"

definition invocations_ok :: "effect list \<Rightarrow> bool" where
  "invocations_ok es =
     (\<forall>pre callback t post. es = pre @ Invoke callback t # post \<longrightarrow>
        trimmed t \<and> stop_scheduled t pre)"

definition pending_ok :: "effect list \<Rightarrow> (timer \<times> nat) list \<Rightarrow> bool" where
  "pending_ok es ts =
     (\<forall>t d. (SpeechEndTimer t, d) \<in> set ts \<longrightarrow> trimmed t \<and> stop_scheduled t es)"

definition callback_inv :: "hook \<Rightarrow> bool" where
  "callback_inv s = (invocations_ok (effects s) \<and> pending_ok (effects s) (timers s))"

fun is_Invoke :: "effect \<Rightarrow> bool" where
  "is_Invoke (Invoke callback t) = True"
| "is_Invoke e = False"

text \<open>Inputs of the examples: a browser with the prefixed constructor only, and events.\<close>

definition chrome :: platform where
  "chrome = \<lparr>has_SpeechRecognition = False, has_webkitSpeechRecognition = True,
     start_throws = False\<rparr>"

definition no_speech_api :: platform where
  "no_speech_api = \<lparr>has_SpeechRecognition = False, has_webkitSpeechRecognition = False,
     start_throws = False\<rparr>"

definition chrome_start_fails :: platform where
  "chrome_start_fails = \<lparr>has_SpeechRecognition = False, has_webkitSpeechRecognition = True,
     start_throws = True\<rparr>"

definition interim_mer :: result_event where
  "interim_mer = \<lparr>results = [\<lparr>alternative0 = js ''mer'', isFinal = False\<rparr>], resultIndex = 0\<rparr>"

definition final_merhaba :: result_event where
  "final_merhaba =
     \<lparr>results = [\<lparr>alternative0 = js ''merhaba '', isFinal = True\<rparr>,
                 \<lparr>alternative0 = js ''dun'', isFinal = False\<rparr>], resultIndex = 0\<rparr>"

definition final_dunya :: result_event where
  "final_dunya =
     \<lparr>results = [\<lparr>alternative0 = js ''merhaba '', isFinal = True\<rparr>,
                 \<lparr>alternative0 = js ''dunya'', isFinal = True\<rparr>,
                 \<lparr>alternative0 = js '' na'', isFinal = False\<rparr>], resultIndex = 1\<rparr>"

definition network_error :: error_event where
  "network_error = \<lparr>error = js ''network'', message = []\<rparr>"

definition aborted_error :: error_event where
  "aborted_error = \<lparr>error = js ''aborted'', message = []\<rparr>"

definition manual_session :: hook where
  "manual_session = run [Call_startListening None chrome, Deliver 0 StartEvent] (mount chrome)"

definition voice_session :: hook where
  "voice_session = run [Call_startListening (Some 7) chrome, Deliver 0 StartEvent] (mount chrome)"

section \<open>Lemmas\<close>

lemmas hook_defs = startListening_def stopListening_def resetTranscript_def restartListening_def
  onstart_def onresult_def onend_def onerror_def emit_def setTimeout_def deliver_def timeout_def
  useEffect_init_def

lemmas hook0_defs = startListening0_def stopListening0_def resetTranscript0_def onstart0_def
  onresult0_def onend0_def onerror0_def emit_def useEffect_init0_def

lemmas example_defs = chrome_def no_speech_api_def chrome_start_fails_def interim_mer_def
  final_merhaba_def final_dunya_def network_error_def aborted_error_def manual_session_def
  voice_session_def mount_def initial_def initial0_def speech_ctor_def js_def

subsection \<open>The loop over the results\<close>

lemma result_loop_eq:
  "result_loop rs i f ref =
     (i @ concat (map alternative0 (filter (\<lambda>r. \<not> isFinal r) rs)),
      f @ concat (map alternative0 (filter isFinal rs)),
      ref @ concat (map alternative0 (filter isFinal rs)))"
  by (induction rs arbitrary: i f ref) simp_all

lemma result_loop_texts:
  "result_loop (drop (resultIndex ev) (results ev)) [] [] ref =
     (interim_text ev, final_text ev, ref @ final_text ev)"
  by (simp add: result_loop_eq final_text_def interim_text_def)

lemma onresult_finalTranscriptRef:
  "finalTranscriptRef (onresult r ev s) = finalTranscriptRef s @ final_text ev"
  by (simp add: onresult_def result_loop_texts Let_def setTimeout_def emit_def)

lemma onresult_transcript:
  "transcript (onresult r ev s) = finalTranscriptRef s @ final_text ev @ interim_text ev"
  by (simp add: onresult_def result_loop_texts Let_def setTimeout_def emit_def)

lemma deliver_results_finalTranscriptRef:
  "finalTranscriptRef (deliver_results r evs s) = finalTranscriptRef s @ concat (map final_text evs)"
  by (induction evs arbitrary: s) (simp_all add: onresult_finalTranscriptRef)

lemma onresult_effects:
  "effects (onresult r ev s) =
     effects s @
     (if final_text ev \<noteq> [] \<and> onSpeechEndRef s \<noteq> None \<and>
         trim (finalTranscriptRef s @ final_text ev) \<noteq> []
      then [Stop r, SetTimeout (SpeechEndTimer (trim (finalTranscriptRef s @ final_text ev))) 100]
      else [])"
  by (simp add: onresult_def result_loop_texts Let_def setTimeout_def emit_def)

lemma onresult_timers:
  "timers (onresult r ev s) =
     timers s @
     (if final_text ev \<noteq> [] \<and> onSpeechEndRef s \<noteq> None \<and>
         trim (finalTranscriptRef s @ final_text ev) \<noteq> []
      then [(SpeechEndTimer (trim (finalTranscriptRef s @ final_text ev)), 100)]
      else [])"
  by (simp add: onresult_def result_loop_texts Let_def setTimeout_def emit_def)

subsection \<open>The supported flag\<close>

lemma startListening_isSupported: "isSupported (startListening cb p s) = isSupported s"
  by (simp add: hook_defs Let_def split: option.splits)

lemma fire_isSupported: "isSupported (fire t p s) = isSupported s"
  by (cases t) (simp_all add: startListening_isSupported emit_def split: option.splits)

lemma handle_isSupported: "isSupported (handle r e s) = isSupported s"
  by (cases e) (simp_all add: hook_defs Let_def split: prod.splits)

lemma step_isSupported: "isSupported (step a s) = isSupported s"
  by (cases a)
    (simp_all add: startListening_isSupported fire_isSupported handle_isSupported
      stopListening_def resetTranscript_def restartListening_def setTimeout_def emit_def
      deliver_def timeout_def Let_def split: option.splits)

lemma run_isSupported: "isSupported (run acts s) = isSupported s"
  by (induction acts arbitrary: s) (simp_all add: step_isSupported)

subsection \<open>The listening flag\<close>

lemma onresult_isListening: "isListening (onresult r ev s) = isListening s"
  by (simp add: onresult_def Let_def setTimeout_def emit_def split: prod.splits)

lemma startListening_isListening: "isListening (startListening cb p s) \<Longrightarrow> isListening s"
  by (simp add: hook_defs Let_def split: option.splits if_splits)

lemma fire_isListening: "isListening (fire t p s) \<Longrightarrow> isListening s"
  by (cases t) (auto simp: emit_def split: option.splits if_splits dest: startListening_isListening)

lemma startListening_isListening_eq:
  "isListening (startListening cb p s) =
     (isListening s \<and> \<not> (isSupported s \<and> speech_ctor p \<and> start_throws p))"
  by (auto simp: hook_defs Let_def split: option.splits)

lemma fire_isListening_eq:
  "\<not> start_throws p \<Longrightarrow> isListening (fire tm p s) = isListening s"
  by (cases tm) (auto simp: emit_def startListening_isListening_eq split: option.splits)

lemma step_listening_session:
  assumes "isListening s \<Longrightarrow> A \<noteq> {}" and "isListening (step a s)"
  shows "track a s A \<noteq> {}"
proof (cases a)
  case (Call_startListening cb p)
  with assms show ?thesis by (auto dest: startListening_isListening)
next
  case Call_stopListening
  with assms show ?thesis
    by (auto simp: stopListening_def emit_def Let_def split: option.splits if_splits)
next
  case Call_resetTranscript
  with assms show ?thesis by (auto simp: resetTranscript_def)
next
  case (Call_restartListening cb)
  with assms show ?thesis by (auto simp: restartListening_def setTimeout_def split: if_splits)
next
  case (Deliver r e)
  with assms show ?thesis
    by (cases e) (auto simp: hook_defs Let_def split: if_splits prod.splits)
next
  case (Timeout i p)
  with assms show ?thesis
    by (auto simp: timeout_def split: if_splits dest!: fire_isListening)
qed

lemma run_listening_session:
  "(isListening s \<Longrightarrow> A \<noteq> {}) \<Longrightarrow> isListening (run acts s) \<Longrightarrow> sessions acts s A \<noteq> {}"
proof (induction acts arbitrary: s A)
  case Nil
  then show ?case by simp
next
  case (Cons a acts)
  show ?case
    using Cons.IH [of "step a s" "track a s A"] Cons.prems step_listening_session [of s A a]
    by auto
qed

subsection \<open>The voice-mode flags\<close>

lemma startListening_voice_refs:
  "voice_refs_consistent s \<Longrightarrow> voice_refs_consistent (startListening cb p s)"
  by (auto simp: voice_refs_consistent_def hook_defs Let_def split: option.splits)

lemma fire_voice_refs: "voice_refs_consistent s \<Longrightarrow> voice_refs_consistent (fire t p s)"
proof (cases t)
  case (SpeechEndTimer fullText)
  then show "voice_refs_consistent s \<Longrightarrow> ?thesis"
    by (auto simp: voice_refs_consistent_def emit_def split: option.splits)
next
  case RetryTimer
  then show "voice_refs_consistent s \<Longrightarrow> ?thesis"
    by (auto simp: startListening_voice_refs split: option.splits)
next
  case (RestartTimer cb)
  then show "voice_refs_consistent s \<Longrightarrow> ?thesis"
    by (auto simp: startListening_voice_refs)
qed

lemma handle_voice_refs: "voice_refs_consistent s \<Longrightarrow> voice_refs_consistent (handle r e s)"
  by (cases e) (auto simp: voice_refs_consistent_def hook_defs Let_def split: prod.splits)

lemma step_voice_refs: "voice_refs_consistent s \<Longrightarrow> voice_refs_consistent (step a s)"
proof (cases a)
  case (Call_startListening cb p)
  then show "voice_refs_consistent s \<Longrightarrow> ?thesis" by (simp add: startListening_voice_refs)
next
  case Call_stopListening
  then show "voice_refs_consistent s \<Longrightarrow> ?thesis"
    by (auto simp: voice_refs_consistent_def stopListening_def emit_def Let_def split: option.splits)
next
  case Call_resetTranscript
  then show "voice_refs_consistent s \<Longrightarrow> ?thesis"
    by (auto simp: voice_refs_consistent_def resetTranscript_def)
next
  case (Call_restartListening cb)
  then show "voice_refs_consistent s \<Longrightarrow> ?thesis"
    by (auto simp: voice_refs_consistent_def restartListening_def setTimeout_def)
next
  case (Deliver r e)
  then show "voice_refs_consistent s \<Longrightarrow> ?thesis"
    by (simp add: deliver_def handle_voice_refs)
next
  case (Timeout i p)
  have "voice_refs_consistent s \<Longrightarrow> voice_refs_consistent (s\<lparr>timers := ts\<rparr>)" for ts
    by (auto simp: voice_refs_consistent_def)
  with Timeout show "voice_refs_consistent s \<Longrightarrow> ?thesis"
    by (simp add: timeout_def fire_voice_refs)
qed

lemma run_voice_refs: "voice_refs_consistent s \<Longrightarrow> voice_refs_consistent (run acts s)"
  by (induction acts arbitrary: s) (simp_all add: step_voice_refs)

lemma mount_voice_refs: "voice_refs_consistent (mount p)"
  by (simp add: voice_refs_consistent_def mount_def useEffect_init_def initial_def)

subsection \<open>The recognizers constructed\<close>

lemma startListening_effects:
  "isSupported s \<Longrightarrow> speech_ctor p \<Longrightarrow>
   effects (startListening cb p s) =
     effects s @ (case recognitionRef s of Some old \<Rightarrow> [Abort old] | None \<Rightarrow> []) @
     [Construct (constructed s), SetContinuous (constructed s) True,
      SetInterimResults (constructed s) True, SetLang (constructed s) (js ''tr-TR''),
      SetHandler (constructed s) Onstart, SetHandler (constructed s) Onresult,
      SetHandler (constructed s) Onend, SetHandler (constructed s) Onerror,
      Start (constructed s)]"
  by (simp add: hook_defs Let_def split: option.splits)

lemma startListening_fresh_ids: "fresh_ids s \<Longrightarrow> fresh_ids (startListening cb p s)"
  by (auto simp: fresh_ids_def hook_defs Let_def less_Suc_eq split: option.splits)

lemma fire_fresh_ids: "fresh_ids s \<Longrightarrow> fresh_ids (fire t p s)"
proof (cases t)
  case (SpeechEndTimer fullText)
  then show "fresh_ids s \<Longrightarrow> ?thesis"
    by (auto simp: fresh_ids_def emit_def split: option.splits)
next
  case RetryTimer
  then show "fresh_ids s \<Longrightarrow> ?thesis"
    by (auto simp: startListening_fresh_ids split: option.splits)
next
  case (RestartTimer cb)
  then show "fresh_ids s \<Longrightarrow> ?thesis"
    by (auto simp: startListening_fresh_ids)
qed

lemma handle_fresh_ids: "fresh_ids s \<Longrightarrow> fresh_ids (handle r e s)"
  by (cases e) (auto simp: fresh_ids_def hook_defs Let_def split: prod.splits if_splits)

lemma step_fresh_ids: "fresh_ids s \<Longrightarrow> fresh_ids (step a s)"
proof (cases a)
  case (Call_startListening cb p)
  then show "fresh_ids s \<Longrightarrow> ?thesis" by (simp add: startListening_fresh_ids)
next
  case Call_stopListening
  then show "fresh_ids s \<Longrightarrow> ?thesis"
    by (auto simp: fresh_ids_def stopListening_def emit_def Let_def split: option.splits)
next
  case Call_resetTranscript
  then show "fresh_ids s \<Longrightarrow> ?thesis"
    by (auto simp: fresh_ids_def resetTranscript_def)
next
  case (Call_restartListening cb)
  then show "fresh_ids s \<Longrightarrow> ?thesis"
    by (auto simp: fresh_ids_def restartListening_def setTimeout_def)
next
  case (Deliver r e)
  then show "fresh_ids s \<Longrightarrow> ?thesis"
    by (simp add: deliver_def handle_fresh_ids)
next
  case (Timeout i p)
  have "fresh_ids s \<Longrightarrow> fresh_ids (s\<lparr>timers := ts\<rparr>)" for ts
    by (auto simp: fresh_ids_def)
  with Timeout show "fresh_ids s \<Longrightarrow> ?thesis"
    by (simp add: timeout_def fire_fresh_ids)
qed

lemma run_fresh_ids: "fresh_ids s \<Longrightarrow> fresh_ids (run acts s)"
  by (induction acts arbitrary: s) (simp_all add: step_fresh_ids)

lemma mount_fresh_ids: "fresh_ids (mount p)"
  by (simp add: fresh_ids_def mount_def useEffect_init_def initial_def)

lemma handle_frame:
  "(handle r e s)\<lparr>isListening := isListening s, transcript := transcript s,
      finalTranscriptRef := finalTranscriptRef s, recognitionRef := recognitionRef s,
      effects := effects s, timers := timers s\<rparr> = s"
  by (cases e) (simp_all add: hook_defs Let_def split: prod.splits)

subsection \<open>Trimmed strings\<close>

lemma trim_trimmed:
  assumes ne: "trim u \<noteq> []"
  shows "trimmed (trim u)"
proof -
  let ?v = "dropWhile is_white_space u"
  let ?w = "dropWhile is_white_space (rev ?v)"
  have w: "?w \<noteq> []" using ne by (simp add: trim_def)
  then have hw: "\<not> is_white_space (hd ?w)" by (rule hd_dropWhile)
  have last_trim: "last (trim u) = hd ?w" using w by (simp add: trim_def last_rev)
  have v: "?v \<noteq> []"
  proof
    assume a: "?v = []"
    have "?w = dropWhile is_white_space (rev [])" by (simp only: a)
    with w show False by simp
  qed
  then have hv: "\<not> is_white_space (hd ?v)" by (rule hd_dropWhile)
  obtain k where k: "?w = drop k (rev ?v)"
    by (metis dropWhile_eq_drop)
  have "rev ?w = take (length ?v - k) ?v" using k by (simp add: rev_drop)
  moreover have "rev ?w \<noteq> []" using w by simp
  ultimately have "hd (rev ?w) = hd ?v" by (metis hd_take take_eq_Nil2 not_gr_zero take_eq_Nil)
  then have "\<not> is_white_space (hd (trim u))" using hv by (simp add: trim_def)
  with ne hw last_trim show ?thesis by (simp add: trimmed_def)
qed

subsection \<open>The calls of the callback\<close>

lemma stop_scheduled_append:
  assumes "stop_scheduled t es"
  shows "stop_scheduled t (es @ es')"
proof -
  from assms obtain r pre post where "es = pre @ Stop r # SetTimeout (SpeechEndTimer t) 100 # post"
    by (auto simp: stop_scheduled_def)
  then have "es @ es' = pre @ Stop r # SetTimeout (SpeechEndTimer t) 100 # (post @ es')"
    by simp
  then show ?thesis
    unfolding stop_scheduled_def by blast
qed

lemma invocations_ok_append:
  assumes "invocations_ok es" and "\<forall>e \<in> set es'. \<not> is_Invoke e"
  shows "invocations_ok (es @ es')"
  unfolding invocations_ok_def
proof (intro allI impI)
  fix pre callback t post
  assume eq: "es @ es' = pre @ Invoke callback t # post"
  then consider us where "es = pre @ Invoke callback t # us"
    | us where "pre = es @ us" and "es' = us @ Invoke callback t # post"
    by (auto simp: append_eq_append_conv2 Cons_eq_append_conv append_eq_Cons_conv)
  then show "trimmed t \<and> stop_scheduled t pre"
  proof cases
    case 1
    with assms(1) show ?thesis by (auto simp: invocations_ok_def)
  next
    case 2
    then have "Invoke callback t \<in> set es'" by simp
    with assms(2) show ?thesis by fastforce
  qed
qed

lemma invocations_ok_invoke:
  assumes "invocations_ok es" and "trimmed t" and "stop_scheduled t es"
  shows "invocations_ok (es @ [Invoke callback t])"
  unfolding invocations_ok_def
proof (intro allI impI)
  fix pre callback' t' post
  assume eq: "es @ [Invoke callback t] = pre @ Invoke callback' t' # post"
  then consider us where "es = pre @ Invoke callback' t' # us"
    | "pre = es" and "t' = t"
    by (auto simp: append_eq_append_conv2 Cons_eq_append_conv append_eq_Cons_conv)
  then show "trimmed t' \<and> stop_scheduled t' pre"
  proof cases
    case 1
    with assms(1) show ?thesis by (auto simp: invocations_ok_def)
  next
    case 2
    with assms(2,3) show ?thesis by simp
  qed
qed

lemma pending_ok_append: "pending_ok es ts \<Longrightarrow> pending_ok (es @ es') ts"
  by (auto simp: pending_ok_def stop_scheduled_append)

lemma pending_ok_subset: "pending_ok es ts \<Longrightarrow> set ts' \<subseteq> set ts \<Longrightarrow> pending_ok es ts'"
  by (auto simp: pending_ok_def)

lemma callback_inv_extend:
  assumes "callback_inv s" and "effects s' = effects s @ es"
    and "\<forall>e \<in> set es. \<not> is_Invoke e" and "set (timers s') \<subseteq> set (timers s)"
  shows "callback_inv s'"
proof -
  have "invocations_ok (effects s')"
    using assms(1-3) by (simp add: callback_inv_def invocations_ok_append)
  moreover have "pending_ok (effects s') (timers s')"
    using assms(1,2,4) pending_ok_subset [OF pending_ok_append, of "effects s" "timers s" "timers s'" es]
    by (simp add: callback_inv_def)
  ultimately show ?thesis by (simp add: callback_inv_def)
qed

lemma startListening_appends:
  "\<exists>es. effects (startListening cb p s) = effects s @ es \<and> (\<forall>e \<in> set es. \<not> is_Invoke e) \<and>
        timers (startListening cb p s) = timers s"
  by (simp add: hook_defs Let_def split: option.splits)

lemma startListening_callback_inv: "callback_inv s \<Longrightarrow> callback_inv (startListening cb p s)"
  using startListening_appends [of cb p s] callback_inv_extend [of s "startListening cb p s"]
  by auto

lemma callback_inv_setTimeout:
  assumes "callback_inv s" and "\<And>t. tm \<noteq> SpeechEndTimer t"
  shows "callback_inv (setTimeout tm d s)"
proof -
  have "invocations_ok (effects s @ [SetTimeout tm d])"
    using assms(1) by (simp add: callback_inv_def invocations_ok_append)
  moreover have "pending_ok (effects s @ [SetTimeout tm d]) (timers s @ [(tm, d)])"
    using assms by (auto simp: callback_inv_def pending_ok_def stop_scheduled_append)
  ultimately show ?thesis
    by (simp add: callback_inv_def setTimeout_def)
qed

lemma onresult_callback_inv:
  assumes "callback_inv s"
  shows "callback_inv (onresult r ev s)"
proof (cases "final_text ev \<noteq> [] \<and> onSpeechEndRef s \<noteq> None \<and>
    trim (finalTranscriptRef s @ final_text ev) \<noteq> []")
  case True
  let ?t = "trim (finalTranscriptRef s @ final_text ev)"
  let ?es = "effects s @ [Stop r, SetTimeout (SpeechEndTimer ?t) 100]"
  have t: "trimmed ?t" using True by (simp add: trim_trimmed)
  have "?es = effects s @ Stop r # SetTimeout (SpeechEndTimer ?t) 100 # []" by simp
  then have sched: "stop_scheduled ?t ?es"
    unfolding stop_scheduled_def by blast
  have "invocations_ok ?es"
    using assms by (simp add: callback_inv_def invocations_ok_append)
  moreover have "pending_ok ?es (timers s @ [(SpeechEndTimer ?t, 100)])"
    using assms t sched by (auto simp: callback_inv_def pending_ok_def stop_scheduled_append)
  ultimately show ?thesis
    using True by (simp add: callback_inv_def onresult_effects onresult_timers)
next
  case False
  then show ?thesis
    using assms by (auto simp: callback_inv_def onresult_effects onresult_timers)
qed

lemma handle_callback_inv: "callback_inv s \<Longrightarrow> callback_inv (handle r e s)"
proof (cases e)
  case StartEvent
  then show "callback_inv s \<Longrightarrow> ?thesis" by (simp add: callback_inv_def onstart_def)
next
  case (ResultEvent ev)
  then show "callback_inv s \<Longrightarrow> ?thesis" by (simp add: onresult_callback_inv)
next
  case EndEvent
  then show "callback_inv s \<Longrightarrow> ?thesis" by (simp add: callback_inv_def onend_def Let_def)
next
  case (ErrorEvent ev)
  have "callback_inv s \<Longrightarrow> callback_inv (s\<lparr>isListening := False, recognitionRef := None\<rparr>)"
    by (simp add: callback_inv_def)
  with ErrorEvent show "callback_inv s \<Longrightarrow> ?thesis"
    by (simp add: onerror_def Let_def callback_inv_setTimeout)
qed

lemma fire_callback_inv:
  assumes "callback_inv s"
    and "\<And>t. tm = SpeechEndTimer t \<Longrightarrow> trimmed t \<and> stop_scheduled t (effects s)"
  shows "callback_inv (fire tm p s)"
proof (cases tm)
  case (SpeechEndTimer t)
  show ?thesis
  proof (cases "onSpeechEndRef s")
    case None
    with SpeechEndTimer assms(1) show ?thesis by simp
  next
    case (Some callback)
    have "invocations_ok (effects s @ [Invoke callback t])"
      using assms SpeechEndTimer by (auto simp: callback_inv_def intro: invocations_ok_invoke)
    moreover have "pending_ok (effects s @ [Invoke callback t]) (timers s)"
      using assms(1) by (auto simp: callback_inv_def intro: pending_ok_append)
    ultimately show ?thesis
      using SpeechEndTimer Some by (simp add: callback_inv_def emit_def)
  qed
next
  case RetryTimer
  with assms(1) show ?thesis
    by (auto simp: startListening_callback_inv split: option.splits)
next
  case (RestartTimer cb)
  with assms(1) show ?thesis
    by (auto simp: startListening_callback_inv)
qed

lemma timeout_callback_inv:
  assumes "callback_inv s"
  shows "callback_inv (timeout i p s)"
proof (cases "i < length (timers s)")
  case True
  let ?s1 = "s\<lparr>timers := take i (timers s) @ drop (Suc i) (timers s)\<rparr>"
  have sub: "set (timers ?s1) \<subseteq> set (timers s)"
    using set_take_subset [of i "timers s"] set_drop_subset [of "Suc i" "timers s"] by auto
  have inv1: "callback_inv ?s1"
    using callback_inv_extend [of s ?s1 "[]"] assms sub by simp
  have "timers s ! i \<in> set (timers s)" using True by simp
  then have "(fst (timers s ! i), snd (timers s ! i)) \<in> set (timers s)" by simp
  then have "\<And>t. fst (timers s ! i) = SpeechEndTimer t \<Longrightarrow>
      trimmed t \<and> stop_scheduled t (effects ?s1)"
    using assms by (auto simp: callback_inv_def pending_ok_def)
  with inv1 have "callback_inv (fire (fst (timers s ! i)) p ?s1)"
    by (rule fire_callback_inv)
  with True show ?thesis by (simp add: timeout_def)
next
  case False
  with assms show ?thesis by (simp add: timeout_def)
qed

lemma step_callback_inv: "callback_inv s \<Longrightarrow> callback_inv (step a s)"
proof (cases a)
  case (Call_startListening cb p)
  then show "callback_inv s \<Longrightarrow> ?thesis" by (simp add: startListening_callback_inv)
next
  case Call_stopListening
  have "callback_inv s \<Longrightarrow> callback_inv (stopListening s)"
    using callback_inv_extend [of s "stopListening s" "[]"]
      callback_inv_extend [of s "stopListening s" "[Stop (the (recognitionRef s))]"]
    by (auto simp: stopListening_def emit_def Let_def split: option.splits)
  with Call_stopListening show "callback_inv s \<Longrightarrow> ?thesis" by simp
next
  case Call_resetTranscript
  then show "callback_inv s \<Longrightarrow> ?thesis" by (simp add: callback_inv_def resetTranscript_def)
next
  case (Call_restartListening cb)
  then show "callback_inv s \<Longrightarrow> ?thesis"
    by (simp add: restartListening_def callback_inv_setTimeout)
next
  case (Deliver r e)
  then show "callback_inv s \<Longrightarrow> ?thesis" by (simp add: deliver_def handle_callback_inv)
next
  case (Timeout i p)
  then show "callback_inv s \<Longrightarrow> ?thesis" by (simp add: timeout_callback_inv)
qed

lemma run_callback_inv: "callback_inv s \<Longrightarrow> callback_inv (run acts s)"
  by (induction acts arbitrary: s) (simp_all add: step_callback_inv)

lemma mount_callback_inv: "callback_inv (mount p)"
  by (simp add: callback_inv_def invocations_ok_def pending_ok_def mount_def useEffect_init_def
      initial_def)

section \<open>Properties of the hook\<close>

text \<open>
  C1. Every result event given to \<open>onresult\<close> sets the transcript to the finalized text
  accumulated so far (what \<open>finalTranscriptRef\<close> held before the result events, then the
  finalized text of each event in turn, this one included) followed by the in-progress
  text of this event, each in result order.
\<close>

theorem onresult_sets_transcript:
  "transcript (onresult r ev (deliver_results r evs s)) =
     finalTranscriptRef s @ concat (map final_text evs) @ final_text ev @ interim_text ev"
  by (simp add: onresult_transcript deliver_results_finalTranscriptRef)

theorem onresult_sets_transcript_witness:
  "transcript (onresult 0 final_dunya (deliver_results 0 [interim_mer, final_merhaba] manual_session)) =
     js ''merhaba dunya na''"
  using onresult_sets_transcript [of 0 final_dunya "[interim_mer, final_merhaba]" manual_session]
  by (simp add: final_text_def interim_text_def example_defs hook_defs Let_def)

text \<open>
  C2, as amended. \<open>onstart\<close> sets the listening flag; \<open>onend\<close>, \<open>onerror\<close> and a call of
  \<open>startListening\<close> in which \<open>start()\<close> is reached and throws clear it; nothing else writes
  it: \<open>onresult\<close>, \<open>stopListening\<close>, \<open>resetTranscript\<close>, \<open>restartListening\<close>, the delayed call
  of the callback and a \<open>startListening\<close> whose \<open>start()\<close> does not throw (called by the user
  interface or by a timer) leave it as it is. So in every run of the mounted hook the flag
  is set only while the session of some recognizer is in progress (its start event
  delivered, its end event not yet).
\<close>

theorem listening_only_in_session:
  "isListening (onstart s) \<and> \<not> isListening (onend s) \<and> \<not> isListening (onerror ev s) \<and>
   isListening (onresult r rv s) = isListening s \<and>
   isListening (startListening cb p s) =
     (isListening s \<and> \<not> (isSupported s \<and> speech_ctor p \<and> start_throws p)) \<and>
   isListening (stopListening s) = isListening s \<and>
   isListening (resetTranscript s) = isListening s \<and>
   isListening (restartListening c s) = isListening s \<and>
   isListening (fire (SpeechEndTimer t) p s) = isListening s \<and>
   (\<not> start_throws p \<longrightarrow> isListening (fire tm p s) = isListening s) \<and>
   (isListening (fire tm p s) \<longrightarrow> isListening s) \<and>
   (isListening (run acts (mount p')) \<longrightarrow> sessions acts (mount p') {} \<noteq> {})"
proof -
  have "\<not> isListening (mount p')"
    by (simp add: mount_def useEffect_init_def initial_def)
  then have "isListening (run acts (mount p')) \<Longrightarrow> sessions acts (mount p') {} \<noteq> {}"
    using run_listening_session [of "mount p'" "{}" acts] by blast
  moreover have "isListening (stopListening s) = isListening s"
    by (simp add: stopListening_def emit_def Let_def split: option.splits)
  moreover have "isListening (restartListening c s) = isListening s"
    by (simp add: restartListening_def setTimeout_def)
  moreover have "isListening (fire (SpeechEndTimer t) p s) = isListening s"
    by (simp add: emit_def split: option.splits)
  moreover have "isListening (fire tm p s) \<Longrightarrow> isListening s"
    by (rule fire_isListening)
  ultimately show ?thesis
    using startListening_isListening_eq [of cb p s] fire_isListening_eq [of p tm s]
    by (auto simp: onstart_def onend_def onerror_def setTimeout_def Let_def onresult_isListening
        resetTranscript_def)
qed

theorem listening_only_in_session_witness:
  "isListening (run [Call_startListening None chrome, Deliver 0 StartEvent] (mount chrome)) \<and>
   sessions [Call_startListening None chrome, Deliver 0 StartEvent] (mount chrome) {} \<noteq> {} \<and>
   isListening manual_session \<and>
   isListening (stopListening manual_session) \<and>
   isListening (resetTranscript manual_session) \<and>
   isListening (onresult 0 final_merhaba manual_session) \<and>
   isListening (startListening (Some 7) chrome manual_session) \<and>
   \<not> isListening (startListening (Some 7) chrome_start_fails manual_session) \<and>
   \<not> start_throws chrome \<and>
   isListening (fire RetryTimer chrome (startListening (Some 7) chrome manual_session)) \<and>
   \<not> isListening (onend manual_session) \<and>
   \<not> isListening (onerror network_error manual_session)"
proof -
  have pre: "isListening manual_session" "isSupported manual_session" "speech_ctor chrome"
    "\<not> start_throws chrome" "speech_ctor chrome_start_fails" "start_throws chrome_start_fails"
    by (simp_all add: example_defs hook_defs Let_def)
  have run_eq: "run [Call_startListening None chrome, Deliver 0 StartEvent] (mount chrome) =
      manual_session"
    by (simp add: manual_session_def)
  have a: "sessions [Call_startListening None chrome, Deliver 0 StartEvent] (mount chrome) {} \<noteq> {}"
    using pre(1) run_eq
      listening_only_in_session
        [where acts = "[Call_startListening None chrome, Deliver 0 StartEvent]" and p' = chrome]
    by simp
  have b: "isListening (stopListening manual_session)"
    "isListening (resetTranscript manual_session)"
    "isListening (onresult 0 final_merhaba manual_session)"
    "\<not> isListening (onend manual_session)"
    "\<not> isListening (onerror network_error manual_session)"
    using pre(1)
      listening_only_in_session [where s = manual_session and r = 0 and rv = final_merhaba
        and ev = network_error]
    by simp_all
  have c: "isListening (startListening (Some 7) chrome manual_session)"
    using pre listening_only_in_session [where s = manual_session and cb = "Some 7" and p = chrome]
    by simp
  have d: "\<not> isListening (startListening (Some 7) chrome_start_fails manual_session)"
    using pre
      listening_only_in_session [where s = manual_session and cb = "Some 7" and p = chrome_start_fails]
    by simp
  have e: "isListening (fire RetryTimer chrome (startListening (Some 7) chrome manual_session))"
    using pre c
      listening_only_in_session [where s = "startListening (Some 7) chrome manual_session"
        and p = chrome and tm = RetryTimer]
    by simp
  show ?thesis
    using pre run_eq a b c d e by simp
qed

text \<open>
  C2, as stated, fails: the flag is not set throughout every session. It is false from an
  error event to the end event; it is false in the session of a recognizer after the end
  event of the recognizer it replaced has come late; and it is false after \<open>start()\<close> has
  thrown in a call of \<open>startListening\<close> made during a session.
\<close>

theorem session_without_listening:
  "sessions [Call_startListening None chrome, Deliver 0 StartEvent,
      Deliver 0 (ErrorEvent network_error)] (mount chrome) {} = {0} \<and>
   \<not> isListening (run [Call_startListening None chrome, Deliver 0 StartEvent,
      Deliver 0 (ErrorEvent network_error)] (mount chrome)) \<and>
   sessions [Call_startListening None chrome, Deliver 0 StartEvent,
      Call_startListening None chrome, Deliver 1 StartEvent, Deliver 0 EndEvent]
      (mount chrome) {} = {1} \<and>
   \<not> isListening (run [Call_startListening None chrome, Deliver 0 StartEvent,
      Call_startListening None chrome, Deliver 1 StartEvent, Deliver 0 EndEvent]
      (mount chrome)) \<and>
   sessions [Call_startListening None chrome, Deliver 0 StartEvent,
      Call_startListening None chrome_start_fails] (mount chrome) {} = {0} \<and>
   \<not> isListening (run [Call_startListening None chrome, Deliver 0 StartEvent,
      Call_startListening None chrome_start_fails] (mount chrome))"
  by (auto simp: example_defs hook_defs Let_def)

text \<open>
  C3. After \<open>onerror\<close> has run the listening flag is false, and so it is after a call of
  \<open>startListening\<close> in which \<open>recognition.start()\<close> is reached and throws.
\<close>

theorem failures_not_listening:
  "\<not> isListening (onerror ev s) \<and>
   (isSupported s \<and> speech_ctor p \<and> start_throws p \<longrightarrow> \<not> isListening (startListening cb p s))"
  by (simp add: hook_defs Let_def split: option.splits)

theorem failures_not_listening_witness:
  "isSupported manual_session \<and> isListening manual_session \<and>
   speech_ctor chrome_start_fails \<and> start_throws chrome_start_fails \<and>
   \<not> isListening (onerror network_error manual_session) \<and>
   \<not> isListening (startListening None chrome_start_fails manual_session)"
  using failures_not_listening [of network_error manual_session chrome_start_fails None]
  by (simp add: example_defs hook_defs Let_def)

text \<open>
  C5. A call of \<open>startListening\<close> that passes its guards clears the accumulated finalized
  text, \<open>onstart\<close> sets the transcript to the empty string, and so the start event of the
  new recognizer leaves both empty.
\<close>

theorem new_session_resets_transcript:
  "isSupported s \<Longrightarrow> speech_ctor p \<Longrightarrow>
     finalTranscriptRef (startListening cb p s) = [] \<and>
     transcript (onstart s') = [] \<and>
     transcript (deliver (constructed s) StartEvent (startListening cb p s)) = [] \<and>
     finalTranscriptRef (deliver (constructed s) StartEvent (startListening cb p s)) = []"
  by (simp add: hook_defs Let_def split: option.splits)

theorem new_session_resets_transcript_witness:
  "isSupported (onresult 0 final_merhaba manual_session) \<and> speech_ctor chrome \<and>
   transcript (onresult 0 final_merhaba manual_session) = js ''merhaba dun'' \<and>
   finalTranscriptRef (onresult 0 final_merhaba manual_session) = js ''merhaba '' \<and>
   finalTranscriptRef (startListening None chrome (onresult 0 final_merhaba manual_session)) = [] \<and>
   transcript (deliver 1 StartEvent
     (startListening None chrome (onresult 0 final_merhaba manual_session))) = []"
proof -
  have s: "isSupported (onresult 0 final_merhaba manual_session)"
    and c: "constructed (onresult 0 final_merhaba manual_session) = 1"
    and p: "speech_ctor chrome"
    by (simp_all add: example_defs hook_defs Let_def)
  show ?thesis
    using new_session_resets_transcript [OF s p, of None initial] c
    by (simp add: onresult_transcript onresult_finalTranscriptRef final_text_def interim_text_def
        example_defs hook_defs Let_def)
qed

text \<open>
  C6. The initialization effect sets the supported flag to whether the platform has a
  \<open>SpeechRecognition\<close> constructor, and no action after it changes the flag.
\<close>

theorem isSupported_set_once:
  "isSupported (mount p) = speech_ctor p \<and> isSupported (run acts s) = isSupported s"
  by (simp add: run_isSupported mount_def useEffect_init_def initial_def)

theorem isSupported_set_once_witness:
  "isSupported (mount chrome) \<and> \<not> isSupported (mount no_speech_api) \<and>
   isSupported (run [Call_startListening (Some 7) chrome, Deliver 0 StartEvent,
     Deliver 0 (ErrorEvent network_error), Call_stopListening, Timeout 0 chrome]
     (mount chrome))"
  using isSupported_set_once [of chrome] isSupported_set_once [of no_speech_api]
    isSupported_set_once [of chrome "[Call_startListening (Some 7) chrome, Deliver 0 StartEvent,
     Deliver 0 (ErrorEvent network_error), Call_stopListening, Timeout 0 chrome]" "mount chrome"]
  by (simp add: example_defs)

text \<open>
  C7, as amended. A call of \<open>startListening\<close> that passes its guards constructs a
  recognizer, assigns the four handlers to it and then starts it: these are its effects,
  in this order, after the abort of the recognizer it may replace. The recognizer is a
  new one, and the four kinds of event delivered to it reach the handlers. A handler
  updates the listening flag, the transcript with the finalized text it accumulates, and
  the reference to the current recognizer; it calls \<open>stop\<close> and schedules timers. It
  leaves every other field as it was: the supported flag, the stored callback and the two
  voice-mode flags \<open>isVoiceModeRef\<close> and \<open>shouldRestartRef\<close>, which the handlers only read.
\<close>

theorem startListening_wires_handlers:
  "(isSupported s \<and> speech_ctor p \<longrightarrow>
      effects (startListening cb p s) =
        effects s @ (case recognitionRef s of Some old \<Rightarrow> [Abort old] | None \<Rightarrow> []) @
        [Construct (constructed s), SetContinuous (constructed s) True,
         SetInterimResults (constructed s) True, SetLang (constructed s) (js ''tr-TR''),
         SetHandler (constructed s) Onstart, SetHandler (constructed s) Onresult,
         SetHandler (constructed s) Onend, SetHandler (constructed s) Onerror,
         Start (constructed s)] \<and>
      deliver (constructed s) e (startListening cb p s) =
        handle (constructed s) e (startListening cb p s)) \<and>
   Construct (constructed (run acts (mount p'))) \<notin> set (effects (run acts (mount p'))) \<and>
   (handle r e s)\<lparr>isListening := isListening s, transcript := transcript s,
      finalTranscriptRef := finalTranscriptRef s, recognitionRef := recognitionRef s,
      effects := effects s, timers := timers s\<rparr> = s"
proof -
  have "fresh_ids (run acts (mount p'))"
    by (simp add: run_fresh_ids mount_fresh_ids)
  then have fresh: "Construct (constructed (run acts (mount p'))) \<notin> set (effects (run acts (mount p')))"
    by (auto simp: fresh_ids_def)
  have "deliver (constructed s) e (startListening cb p s) =
      handle (constructed s) e (startListening cb p s)"
    if "isSupported s" and "speech_ctor p"
    using that by (cases e) (simp_all add: deliver_def startListening_effects)
  with fresh show ?thesis
    using handle_frame [where r = r and e = e and s = s]
      startListening_effects [where s = s and p = p and cb = cb]
    by blast
qed

theorem startListening_wires_handlers_witness:
  "isSupported manual_session \<and> speech_ctor chrome \<and>
   effects (startListening (Some 7) chrome manual_session) =
     effects manual_session @
     [Abort 0, Construct 1, SetContinuous 1 True, SetInterimResults 1 True,
      SetLang 1 (js ''tr-TR''), SetHandler 1 Onstart, SetHandler 1 Onresult,
      SetHandler 1 Onend, SetHandler 1 Onerror, Start 1] \<and>
   onSpeechEndRef (handle 0 (ErrorEvent network_error) manual_session) =
     onSpeechEndRef manual_session"
proof -
  have s: "isSupported manual_session" "speech_ctor chrome"
    "constructed manual_session = 1" "recognitionRef manual_session = Some 0"
    by (simp_all add: example_defs hook_defs Let_def)
  have "onSpeechEndRef ((handle 0 (ErrorEvent network_error) manual_session)
      \<lparr>isListening := isListening manual_session, transcript := transcript manual_session,
       finalTranscriptRef := finalTranscriptRef manual_session,
       recognitionRef := recognitionRef manual_session,
       effects := effects manual_session, timers := timers manual_session\<rparr>) =
     onSpeechEndRef manual_session"
    using startListening_wires_handlers
      [where s = manual_session and r = 0 and e = "ErrorEvent network_error"]
    by simp
  then have "onSpeechEndRef (handle 0 (ErrorEvent network_error) manual_session) =
      onSpeechEndRef manual_session"
    by simp
  then show ?thesis
    using s startListening_wires_handlers
      [where s = manual_session and p = chrome and cb = "Some 7"]
    by simp
qed

text \<open>
  C7, as stated, fails: the handlers do update state other than the listening flag, the
  transcript and the voice-mode restart flags. In a session without callback, where both
  flags are false and stay so, \<open>onend\<close> clears the reference to the current recognizer.
\<close>

theorem onend_clears_recognitionRef:
  "\<not> isVoiceModeRef manual_session \<and> \<not> shouldRestartRef manual_session \<and>
   recognitionRef manual_session = Some 0 \<and>
   recognitionRef (deliver 0 EndEvent manual_session) = None \<and>
   \<not> isVoiceModeRef (deliver 0 EndEvent manual_session) \<and>
   \<not> shouldRestartRef (deliver 0 EndEvent manual_session)"
  by (simp add: example_defs hook_defs Let_def)

text \<open>
  C8. When the supported flag is false, \<open>startListening\<close> returns at once: no recognizer
  is constructed and no field of the state changes.
\<close>

theorem startListening_unsupported_noop:
  "\<not> isSupported s \<Longrightarrow> startListening onSpeechEnd p s = s"
  by (simp add: startListening_def)

theorem startListening_unsupported_noop_witness:
  "\<not> isSupported (mount no_speech_api) \<and>
   startListening (Some 7) chrome (mount no_speech_api) = mount no_speech_api"
proof -
  have "\<not> isSupported (mount no_speech_api)"
    by (simp add: example_defs useEffect_init_def)
  then show ?thesis
    using startListening_unsupported_noop [of "mount no_speech_api" "Some 7" chrome] by simp
qed

text \<open>
  C9. In every run of the mounted hook, each call of the callback has a non-empty,
  trimmed argument, and before it, in the effects, \<open>stop()\<close> was called on a recognizer
  and this call of the callback scheduled right after. The two come from \<open>onresult\<close>,
  which calls \<open>stop()\<close> on its recognizer and schedules the call with the trimmed finalized
  text accumulated up to this event, when the event has finalized text, a callback is
  stored and the trimmed text is not empty; the timer then calls the callback that is
  stored when it fires, with this text.
\<close>

theorem callback_after_stop:
  "(effects (run acts (mount p)) = pre @ Invoke callback t # post \<longrightarrow>
      trimmed t \<and> stop_scheduled t pre) \<and>
   effects (onresult r ev s) =
     effects s @
     (if final_text ev \<noteq> [] \<and> onSpeechEndRef s \<noteq> None \<and>
         trim (finalTranscriptRef s @ final_text ev) \<noteq> []
      then [Stop r, SetTimeout (SpeechEndTimer (trim (finalTranscriptRef s @ final_text ev))) 100]
      else []) \<and>
   effects (fire (SpeechEndTimer t') p' s) =
     effects s @ (case onSpeechEndRef s of Some c \<Rightarrow> [Invoke c t'] | None \<Rightarrow> [])"
proof -
  have "callback_inv (run acts (mount p))"
    by (simp add: run_callback_inv mount_callback_inv)
  then have "effects (run acts (mount p)) = pre @ Invoke callback t # post \<Longrightarrow>
      trimmed t \<and> stop_scheduled t pre"
    by (auto simp: callback_inv_def invocations_ok_def)
  moreover have "effects (fire (SpeechEndTimer t') p' s) =
     effects s @ (case onSpeechEndRef s of Some c \<Rightarrow> [Invoke c t'] | None \<Rightarrow> [])"
    by (simp add: emit_def split: option.splits)
  ultimately show ?thesis
    using onresult_effects [of r ev s] by blast
qed

theorem callback_after_stop_witness:
  "effects (run [Call_startListening (Some 7) chrome, Deliver 0 StartEvent,
      Deliver 0 (ResultEvent final_merhaba), Timeout 0 chrome] (mount chrome)) =
     [Construct 0, SetContinuous 0 True, SetInterimResults 0 True, SetLang 0 (js ''tr-TR''),
      SetHandler 0 Onstart, SetHandler 0 Onresult, SetHandler 0 Onend, SetHandler 0 Onerror,
      Start 0, Stop 0, SetTimeout (SpeechEndTimer (js ''merhaba'')) 100] @
     Invoke 7 (js ''merhaba'') # [] \<and>
   trimmed (js ''merhaba'') \<and>
   stop_scheduled (js ''merhaba'')
     [Construct 0, SetContinuous 0 True, SetInterimResults 0 True, SetLang 0 (js ''tr-TR''),
      SetHandler 0 Onstart, SetHandler 0 Onresult, SetHandler 0 Onend, SetHandler 0 Onerror,
      Start 0, Stop 0, SetTimeout (SpeechEndTimer (js ''merhaba'')) 100]"
proof -
  have eq: "effects (run [Call_startListening (Some 7) chrome, Deliver 0 StartEvent,
      Deliver 0 (ResultEvent final_merhaba), Timeout 0 chrome] (mount chrome)) =
     [Construct 0, SetContinuous 0 True, SetInterimResults 0 True, SetLang 0 (js ''tr-TR''),
      SetHandler 0 Onstart, SetHandler 0 Onresult, SetHandler 0 Onend, SetHandler 0 Onerror,
      Start 0, Stop 0, SetTimeout (SpeechEndTimer (js ''merhaba'')) 100] @
     Invoke 7 (js ''merhaba'') # []"
    by (simp add: example_defs hook_defs Let_def trim_def is_white_space_def)
  show ?thesis
    using eq callback_after_stop
      [where acts = "[Call_startListening (Some 7) chrome, Deliver 0 StartEvent,
          Deliver 0 (ResultEvent final_merhaba), Timeout 0 chrome]"
        and p = chrome and callback = 7 and t = "js ''merhaba''" and post = "[]"
        and pre = "[Construct 0, SetContinuous 0 True, SetInterimResults 0 True,
          SetLang 0 (js ''tr-TR''), SetHandler 0 Onstart, SetHandler 0 Onresult,
          SetHandler 0 Onend, SetHandler 0 Onerror, Start 0, Stop 0,
          SetTimeout (SpeechEndTimer (js ''merhaba'')) 100]"]
    by blast
qed

text \<open>
  C10. When \<open>onend\<close> runs with \<open>isVoiceModeRef\<close> false and the accumulated finalized text
  not empty, it sets the transcript to that text, whatever in-progress text the
  transcript showed. In a run of the mounted hook \<open>isVoiceModeRef\<close> is false whenever no
  callback is stored, so this is what happens at the end of a session started without a
  callback.
\<close>

theorem onend_manual_keeps_final:
  "(\<not> isVoiceModeRef s \<and> finalTranscriptRef s \<noteq> [] \<longrightarrow>
      transcript (onend s) = finalTranscriptRef s) \<and>
   (onSpeechEndRef (run acts (mount p)) = None \<and> finalTranscriptRef (run acts (mount p)) \<noteq> [] \<longrightarrow>
      transcript (onend (run acts (mount p))) = finalTranscriptRef (run acts (mount p)))"
proof -
  have "voice_refs_consistent (run acts (mount p))"
    by (simp add: run_voice_refs mount_voice_refs)
  then have "onSpeechEndRef (run acts (mount p)) = None \<Longrightarrow> \<not> isVoiceModeRef (run acts (mount p))"
    by (auto simp: voice_refs_consistent_def)
  then show ?thesis
    by (auto simp: onend_def Let_def)
qed

theorem onend_manual_keeps_final_witness:
  "onSpeechEndRef (run [Call_startListening None chrome, Deliver 0 StartEvent,
      Deliver 0 (ResultEvent final_merhaba)] (mount chrome)) = None \<and>
   transcript (run [Call_startListening None chrome, Deliver 0 StartEvent,
      Deliver 0 (ResultEvent final_merhaba)] (mount chrome)) = js ''merhaba dun'' \<and>
   finalTranscriptRef (run [Call_startListening None chrome, Deliver 0 StartEvent,
      Deliver 0 (ResultEvent final_merhaba)] (mount chrome)) = js ''merhaba '' \<and>
   transcript (onend (run [Call_startListening None chrome, Deliver 0 StartEvent,
      Deliver 0 (ResultEvent final_merhaba)] (mount chrome))) = js ''merhaba '' \<and>
   \<not> isVoiceModeRef (stopListening (onresult 0 final_merhaba voice_session)) \<and>
   onSpeechEndRef (stopListening (onresult 0 final_merhaba voice_session)) = Some 7 \<and>
   transcript (stopListening (onresult 0 final_merhaba voice_session)) = js ''merhaba dun'' \<and>
   transcript (onend (stopListening (onresult 0 final_merhaba voice_session))) = js ''merhaba ''"
proof -
  let ?acts = "[Call_startListening None chrome, Deliver 0 StartEvent,
      Deliver 0 (ResultEvent final_merhaba)]"
  let ?s = "stopListening (onresult 0 final_merhaba voice_session)"
  have facts:
    "onSpeechEndRef (run ?acts (mount chrome)) = None"
    "transcript (run ?acts (mount chrome)) = js ''merhaba dun''"
    "finalTranscriptRef (run ?acts (mount chrome)) = js ''merhaba ''"
    by (simp_all add: example_defs hook_defs Let_def)
  have facts2:
    "\<not> isVoiceModeRef ?s" "onSpeechEndRef ?s = Some 7"
    "transcript ?s = js ''merhaba dun''" "finalTranscriptRef ?s = js ''merhaba ''"
    by (simp_all add: example_defs hook_defs Let_def trim_def is_white_space_def)
  have ne: "js ''merhaba '' \<noteq> []" by (simp add: js_def)
  have "transcript (onend (run ?acts (mount chrome))) = js ''merhaba ''"
    using facts ne onend_manual_keeps_final [where acts = ?acts and p = chrome] by simp
  moreover have "transcript (onend ?s) = js ''merhaba ''"
    using facts2 ne onend_manual_keeps_final [where s = ?s] by simp
  ultimately show ?thesis
    using facts facts2 by simp
qed

text \<open>
  C4, as amended. \<open>onerror\<close> clears the listening flag and the recognizer reference, and
  when both voice-mode flags are set and the error is not \<open>aborted\<close> it schedules one
  retry, 1000 ms later; with an \<open>aborted\<close> error, or a flag not set, it schedules
  nothing. The retry, when its timer fires in a run of the mounted hook with the restart
  flag set, is the call of \<open>startListening\<close> with the stored callback, which is there;
  with the flag not set it does nothing. \<open>stopListening\<close> clears the flag, a call of
  \<open>startListening\<close> with a callback that passes the guards sets both flags, and
  \<open>startListening\<close> itself schedules nothing, also when \<open>start()\<close> throws.
\<close>

theorem voice_error_retry:
  "(isVoiceModeRef s \<and> shouldRestartRef s \<and> error ev \<noteq> js ''aborted'' \<longrightarrow>
      onerror ev s =
        setTimeout RetryTimer 1000 (s\<lparr>isListening := False, recognitionRef := None\<rparr>)) \<and>
   (\<not> isVoiceModeRef s \<or> \<not> shouldRestartRef s \<or> error ev = js ''aborted'' \<longrightarrow>
      onerror ev s = s\<lparr>isListening := False, recognitionRef := None\<rparr>) \<and>
   (shouldRestartRef (run acts (mount p)) \<longrightarrow>
      onSpeechEndRef (run acts (mount p)) \<noteq> None \<and>
      fire RetryTimer p' (run acts (mount p)) =
        startListening (onSpeechEndRef (run acts (mount p))) p' (run acts (mount p))) \<and>
   (\<not> shouldRestartRef s \<longrightarrow> fire RetryTimer p' s = s) \<and>
   \<not> shouldRestartRef (stopListening s) \<and>
   (isSupported s \<and> speech_ctor p' \<longrightarrow>
      isVoiceModeRef (startListening (Some c) p' s) \<and>
      shouldRestartRef (startListening (Some c) p' s)) \<and>
   timers (startListening cb p' s) = timers s"
proof -
  have "voice_refs_consistent (run acts (mount p))"
    by (simp add: run_voice_refs mount_voice_refs)
  then have "shouldRestartRef (run acts (mount p)) \<Longrightarrow>
      onSpeechEndRef (run acts (mount p)) \<noteq> None \<and>
      fire RetryTimer p' (run acts (mount p)) =
        startListening (onSpeechEndRef (run acts (mount p))) p' (run acts (mount p))"
    by (auto simp: voice_refs_consistent_def)
  moreover have "\<not> shouldRestartRef (stopListening s)"
    by (simp add: stopListening_def emit_def Let_def split: option.splits)
  moreover have "timers (startListening cb p' s) = timers s"
    by (simp add: hook_defs Let_def split: option.splits)
  moreover have "isSupported s \<and> speech_ctor p' \<Longrightarrow>
      isVoiceModeRef (startListening (Some c) p' s) \<and>
      shouldRestartRef (startListening (Some c) p' s)"
    by (simp add: hook_defs Let_def split: option.splits)
  ultimately show ?thesis
    by (auto simp: onerror_def Let_def)
qed

theorem voice_error_retry_witness:
  "isVoiceModeRef voice_session \<and> shouldRestartRef voice_session \<and>
   error network_error \<noteq> js ''aborted'' \<and> error aborted_error = js ''aborted'' \<and>
   timers (onerror network_error voice_session) = [(RetryTimer, 1000)] \<and>
   \<not> isListening (onerror network_error voice_session) \<and>
   timers (onerror aborted_error voice_session) = [] \<and>
   shouldRestartRef (run [Call_startListening (Some 7) chrome, Deliver 0 StartEvent,
      Deliver 0 (ErrorEvent network_error)] (mount chrome)) \<and>
   effects (fire RetryTimer chrome (run [Call_startListening (Some 7) chrome, Deliver 0 StartEvent,
      Deliver 0 (ErrorEvent network_error)] (mount chrome))) =
     effects voice_session @
     [SetTimeout RetryTimer 1000, Construct 1, SetContinuous 1 True, SetInterimResults 1 True,
      SetLang 1 (js ''tr-TR''), SetHandler 1 Onstart, SetHandler 1 Onresult,
      SetHandler 1 Onend, SetHandler 1 Onerror, Start 1] \<and>
   \<not> shouldRestartRef (stopListening (onerror network_error voice_session)) \<and>
   fire RetryTimer chrome (stopListening (onerror network_error voice_session)) =
     stopListening (onerror network_error voice_session) \<and>
   isSupported (mount chrome) \<and> speech_ctor chrome \<and>
   isVoiceModeRef (startListening (Some 7) chrome (mount chrome)) \<and>
   shouldRestartRef (startListening (Some 7) chrome (mount chrome)) \<and>
   timers (startListening (Some 7) chrome_start_fails (mount chrome)) = []"
proof -
  let ?acts = "[Call_startListening (Some 7) chrome, Deliver 0 StartEvent,
      Deliver 0 (ErrorEvent network_error)]"
  have pre: "isVoiceModeRef voice_session" "shouldRestartRef voice_session"
    "error network_error \<noteq> js ''aborted''" "error aborted_error = js ''aborted''"
    "isSupported (mount chrome)" "speech_ctor chrome"
    by (simp_all add: example_defs hook_defs Let_def)
  have run_eq: "run ?acts (mount chrome) = onerror network_error voice_session"
    by (simp add: example_defs hook_defs Let_def)
  have restart: "shouldRestartRef (run ?acts (mount chrome))"
    by (simp add: example_defs hook_defs Let_def)
  have a: "onerror network_error voice_session =
      setTimeout RetryTimer 1000 (voice_session\<lparr>isListening := False, recognitionRef := None\<rparr>)"
    using pre voice_error_retry [where s = voice_session and ev = network_error] by blast
  have b: "onerror aborted_error voice_session =
      voice_session\<lparr>isListening := False, recognitionRef := None\<rparr>"
    using pre voice_error_retry [where s = voice_session and ev = aborted_error] by blast
  have c: "fire RetryTimer chrome (run ?acts (mount chrome)) =
      startListening (onSpeechEndRef (run ?acts (mount chrome))) chrome (run ?acts (mount chrome))"
    using restart voice_error_retry [where acts = ?acts and p = chrome and p' = chrome] by blast
  have d: "\<not> shouldRestartRef (stopListening (onerror network_error voice_session))"
    "fire RetryTimer chrome (stopListening (onerror network_error voice_session)) =
      stopListening (onerror network_error voice_session)"
    using voice_error_retry [where s = "onerror network_error voice_session"]
      voice_error_retry [where s = "stopListening (onerror network_error voice_session)"
        and p' = chrome]
    by blast+
  have e: "isVoiceModeRef (startListening (Some 7) chrome (mount chrome))"
    "shouldRestartRef (startListening (Some 7) chrome (mount chrome))"
    "timers (startListening (Some 7) chrome_start_fails (mount chrome)) = timers (mount chrome)"
    using pre voice_error_retry [where s = "mount chrome" and p' = chrome and c = 7]
      voice_error_retry [where s = "mount chrome" and p' = chrome_start_fails and cb = "Some 7"]
    by blast+
  have t1: "timers (onerror network_error voice_session) = [(RetryTimer, 1000)]"
    "\<not> isListening (onerror network_error voice_session)"
    unfolding a by (simp_all add: setTimeout_def example_defs hook_defs Let_def)
  have t2: "timers (onerror aborted_error voice_session) = []"
    unfolding b by (simp add: example_defs hook_defs Let_def)
  have t3: "effects (fire RetryTimer chrome (run ?acts (mount chrome))) =
     effects voice_session @
     [SetTimeout RetryTimer 1000, Construct 1, SetContinuous 1 True, SetInterimResults 1 True,
      SetLang 1 (js ''tr-TR''), SetHandler 1 Onstart, SetHandler 1 Onresult,
      SetHandler 1 Onend, SetHandler 1 Onerror, Start 1]"
    unfolding c by (simp add: example_defs hook_defs Let_def)
  have t4: "timers (mount chrome) = []"
    by (simp add: example_defs hook_defs)
  show ?thesis
    using pre restart d e t1 t2 t3 t4 by simp
qed

text \<open>
  C4, as stated, fails: in voice mode with the restart flag set, an \<open>aborted\<close> error
  schedules no retry.
\<close>

theorem aborted_error_no_retry:
  "isVoiceModeRef voice_session \<and> shouldRestartRef voice_session \<and>
   onSpeechEndRef voice_session = Some 7 \<and>
   timers (deliver 0 (ErrorEvent aborted_error) voice_session) = [] \<and>
   effects (deliver 0 (ErrorEvent aborted_error) voice_session) = effects voice_session \<and>
   shouldRestartRef (deliver 0 (ErrorEvent aborted_error) voice_session)"
  by (simp add: example_defs hook_defs Let_def)

section \<open>The same properties of the earlier revision\<close>

text \<open>
  \<open>onresult0\<close> sets the transcript as \<open>onresult\<close> does, and accumulates the finalized
  text in the same way.
\<close>

lemma rev0_result_transcript:
  "transcript (onresult0 r ev s) = finalTranscriptRef s @ final_text ev @ interim_text ev \<and>
   finalTranscriptRef (onresult0 r ev s) = finalTranscriptRef s @ final_text ev"
  by (simp add: onresult0_def result_loop_texts Let_def emit_def split: option.splits)

text \<open>
  After \<open>onerror0\<close>, and after a call of \<open>startListening0\<close> in which \<open>start()\<close> is reached
  and throws, the listening flag is false.
\<close>

lemma rev0_errors_clear_listening:
  "\<not> isListening (onerror0 ev s) \<and>
   (isSupported s \<and> \<not> isListening s \<and> speech_ctor p \<and> start_throws p \<longrightarrow>
      \<not> isListening (startListening0 cb p s))"
  by (simp add: hook0_defs Let_def)

text \<open>
  A call of \<open>startListening0\<close> that passes its guards clears the accumulated finalized
  text, and \<open>onstart0\<close> sets the transcript to the empty string.
\<close>

lemma rev0_start_clears_texts:
  "isSupported s \<Longrightarrow> \<not> isListening s \<Longrightarrow> speech_ctor p \<Longrightarrow>
     finalTranscriptRef (startListening0 cb p s) = [] \<and> transcript (onstart0 s') = [] \<and>
     transcript (step0 (Deliver0 (constructed s) StartEvent) (startListening0 cb p s)) = []"
  by (simp add: hook0_defs Let_def)

text \<open>Only the initialization effect writes the supported flag.\<close>

lemma rev0_step_supported: "isSupported (step0 a s) = isSupported s"
proof (cases a)
  case (Call_startListening0 cb p)
  then show ?thesis by (simp add: hook0_defs Let_def)
next
  case Call_stopListening0
  then show ?thesis by (simp add: hook0_defs split: option.splits)
next
  case Call_resetTranscript0
  then show ?thesis by (simp add: hook0_defs)
next
  case (Deliver0 r e)
  then show ?thesis
    by (cases e) (simp_all add: hook0_defs Let_def split: prod.splits option.splits)
qed

lemma rev0_supported_frame:
  "isSupported (useEffect_init0 p initial0) = speech_ctor p \<and>
   isSupported (run0 acts s) = isSupported s"
proof -
  have "isSupported (run0 acts s) = isSupported s"
    by (induction acts arbitrary: s) (simp_all add: rev0_step_supported)
  then show ?thesis
    by (simp add: useEffect_init0_def initial0_def)
qed

text \<open>
  A call of \<open>startListening0\<close> that passes its guards constructs a recognizer, assigns the
  four handlers and starts it; the handlers update the listening flag, the transcript and
  the accumulated finalized text, and nothing else but the effects.
\<close>

lemma rev0_wiring:
  "(isSupported s \<and> \<not> isListening s \<and> speech_ctor p \<longrightarrow>
      effects (startListening0 cb p s) =
        effects s @
        [Construct (constructed s), SetContinuous (constructed s) True,
         SetInterimResults (constructed s) True, SetLang (constructed s) (js ''tr-TR''),
         SetHandler (constructed s) Onstart, SetHandler (constructed s) Onresult,
         SetHandler (constructed s) Onend, SetHandler (constructed s) Onerror,
         Start (constructed s)]) \<and>
   (handle0 r e s)\<lparr>isListening := isListening s, transcript := transcript s,
      finalTranscriptRef := finalTranscriptRef s, effects := effects s\<rparr> = s"
proof -
  have "(handle0 r e s)\<lparr>isListening := isListening s, transcript := transcript s,
      finalTranscriptRef := finalTranscriptRef s, effects := effects s\<rparr> = s"
    by (cases e) (simp_all add: hook0_defs Let_def split: prod.splits option.splits)
  then show ?thesis
    by (simp add: startListening0_def emit_def Let_def)
qed

text \<open>With the supported flag false, \<open>startListening0\<close> changes nothing.\<close>

lemma rev0_unsupported_noop:
  "\<not> isSupported s \<Longrightarrow> startListening0 onSpeechEnd p s = s"
  by (simp add: startListening0_def)

text \<open>
  \<open>onresult0\<close> calls the callback itself, right after it has stopped the recognizer, with
  the trimmed finalized text, and only when that text is not empty.
\<close>

lemma rev0_callback_effects:
  "effects (onresult0 r ev s) =
     effects s @
     (case onSpeechEndRef s of
        None \<Rightarrow> []
      | Some callback \<Rightarrow>
          if final_text ev \<noteq> [] \<and> trim (finalTranscriptRef s @ final_text ev) \<noteq> []
          then [Stop r, Invoke callback (trim (finalTranscriptRef s @ final_text ev))]
          else [])"
  by (simp add: onresult0_def result_loop_texts Let_def emit_def split: option.splits)

text \<open>
  Without a stored callback and with finalized text, \<open>onend0\<close> sets the transcript to
  the finalized text.
\<close>

lemma rev0_onend_manual:
  "onSpeechEndRef s = None \<Longrightarrow> finalTranscriptRef s \<noteq> [] \<Longrightarrow>
     transcript (onend0 s) = finalTranscriptRef s"
  by (simp add: onend0_def Let_def)

lemma rev0_example:
  "effects (run0 [Call_startListening0 (Some 7) chrome, Deliver0 0 StartEvent,
      Deliver0 0 (ResultEvent final_merhaba)] (useEffect_init0 chrome initial0)) =
     [Construct 0, SetContinuous 0 True, SetInterimResults 0 True, SetLang 0 (js ''tr-TR''),
      SetHandler 0 Onstart, SetHandler 0 Onresult, SetHandler 0 Onend, SetHandler 0 Onerror,
      Start 0, Stop 0, Invoke 7 (js ''merhaba'')]"
  by (simp add: example_defs hook0_defs Let_def trim_def is_white_space_def)

end
